theory Spec2Isabelle
  imports Complex_Main
begin

section \<open>Data of the one-dimensional scan (autode/pes_1d.py)\<close>

text \<open>
  A geometry is the list of lines \<open>[label, x, y, z]\<close> that \<open>get_final_xyzs\<close> of the
  ORCA wrapper builds; an energy is the float that \<open>get_energy\<close> parses, or Python's
  \<open>None\<close> when no line of the output file holds one. Floats are modelled as reals: the
  peak search only compares and subtracts them, and NaN is left out.
\<close>

type_synonym xyz_line = "string \<times> real \<times> real \<times> real"
type_synonym xyzs = "xyz_line list"
type_synonym energy = real
type_synonym bond = "nat \<times> nat"

datatype py_error = TypeError | IndexError | ValueError

text \<open>Reading \<open>xs[i]\<close> for an index \<open>i \<ge> 0\<close>: out of range raises IndexError.\<close>

fun py_index :: "'a list \<Rightarrow> nat \<Rightarrow> py_error + 'a" where
  "py_index xs i = (if i < length xs then Inr (xs ! i) else Inl IndexError)"

text \<open>Python 3 compares two floats; a comparison with \<open>None\<close> on either side raises TypeError.\<close>

fun py_lt :: "energy option \<Rightarrow> energy option \<Rightarrow> py_error + bool" where
  "py_lt (Some a) (Some b) = Inr (a < b)"
| "py_lt _ _ = Inl TypeError"

fun py_gt :: "energy option \<Rightarrow> energy option \<Rightarrow> py_error + bool" where
  "py_gt (Some a) (Some b) = Inr (a > b)"
| "py_gt _ _ = Inl TypeError"

fun py_sub :: "energy option \<Rightarrow> energy option \<Rightarrow> py_error + energy" where
  "py_sub (Some a) (Some b) = Inr (a - b)"
| "py_sub _ _ = Inl TypeError"

text \<open>
  The builtin \<open>min\<close> of a list: the first item is the running minimum, every later item
  replaces it when \<open>item < minimum\<close>; the empty list raises ValueError.
\<close>

fun min_from :: "energy option \<Rightarrow> energy option list \<Rightarrow> py_error + energy option" where
  "min_from m [] = Inr m"
| "min_from m (e # es) =
     (case py_lt e m of
        Inl err \<Rightarrow> Inl err
      | Inr b \<Rightarrow> min_from (if b then e else m) es)"

definition py_min :: "energy option list \<Rightarrow> py_error + energy option" where
  "py_min es = (case es of [] \<Rightarrow> Inl ValueError | e # es' \<Rightarrow> min_from e es')"

section \<open>find_1dpes_maximum_energy_xyzs\<close>

text \<open>
  One pass of the loop body for index \<open>i\<close>, on the state \<open>(peak_e, xyzs_peak_energy)\<close>.
  The condition is \<open>energy_list[i] > peak_e and energy_list[i-1] < energy_list[i] > energy_list[i+1]\<close>,
  evaluated left to right with short-circuiting, so an index is only read when the
  comparisons before it were true.
\<close>

definition peak_step ::
  "xyzs list \<Rightarrow> energy option list \<Rightarrow> nat \<Rightarrow> energy option \<times> xyzs option
     \<Rightarrow> py_error + (energy option \<times> xyzs option)" where
  "peak_step xyzs_list energy_list i st =
     (case py_index energy_list i of
        Inl err \<Rightarrow> Inl err
      | Inr e_i \<Rightarrow>
         (case py_gt e_i (fst st) of
            Inl err \<Rightarrow> Inl err
          | Inr is_above \<Rightarrow>
             if \<not> is_above then Inr st
             else
               (case py_index energy_list (i - 1) of
                  Inl err \<Rightarrow> Inl err
                | Inr e_prev \<Rightarrow>
                   (case py_lt e_prev e_i of
                      Inl err \<Rightarrow> Inl err
                    | Inr is_rising \<Rightarrow>
                       if \<not> is_rising then Inr st
                       else
                         (case py_index energy_list (i + 1) of
                            Inl err \<Rightarrow> Inl err
                          | Inr e_next \<Rightarrow>
                             (case py_gt e_i e_next of
                                Inl err \<Rightarrow> Inl err
                              | Inr is_falling \<Rightarrow>
                                 if \<not> is_falling then Inr st
                                 else
                                   (case py_index xyzs_list i of
                                      Inl err \<Rightarrow> Inl err
                                    | Inr x \<Rightarrow> Inr (e_i, Some x))))))))"

fun peak_loop ::
  "xyzs list \<Rightarrow> energy option list \<Rightarrow> nat list \<Rightarrow> energy option \<times> xyzs option
     \<Rightarrow> py_error + (energy option \<times> xyzs option)" where
  "peak_loop xyzs_list energy_list [] st = Inr st"
| "peak_loop xyzs_list energy_list (i # is) st =
     (case peak_step xyzs_list energy_list i st of
        Inl err \<Rightarrow> Inl err
      | Inr st' \<Rightarrow> peak_loop xyzs_list energy_list is st')"

text \<open>
  Modelled from the spec: \<open>Constants.ha2kcalmol\<close>, the factor that converts the curve to
  the chemistry-standard energy unit (autode/constants.py is not among the sources). Only
  the curve handed to the plot depends on it.
\<close>

definition ha2kcalmol :: real where
  "ha2kcalmol = 627.509"

text \<open>
  The list comprehension \<open>[Constants.ha2kcalmol * (e - min_e) for e in energy_list]\<close>
  that is built for \<open>plot_1dpes\<close>: subtracting with \<open>None\<close> raises TypeError.
\<close>

fun rel_energies :: "energy option \<Rightarrow> energy option list \<Rightarrow> py_error + energy list" where
  "rel_energies min_e [] = Inr []"
| "rel_energies min_e (e # es) =
     (case py_sub e min_e of
        Inl err \<Rightarrow> Inl err
      | Inr d \<Rightarrow>
         (case rel_energies min_e es of
            Inl err \<Rightarrow> Inl err
          | Inr ds \<Rightarrow> Inr (ha2kcalmol * d # ds)))"

text \<open>
  The function itself. \<open>Inr None\<close> is the return value \<open>None\<close>, \<open>Inr (Some x)\<close> a
  geometry, \<open>Inl err\<close> an exception raised. The loop runs over \<open>range(1, len(dists) - 1)\<close>;
  plotting and logging have no effect on the result.
\<close>

definition find_1dpes_maximum_energy_xyzs ::
  "real list \<Rightarrow> xyzs list \<Rightarrow> energy option list \<Rightarrow> py_error + xyzs option" where
  "find_1dpes_maximum_energy_xyzs dists xyzs_list energy_list =
     (if length xyzs_list = 0 \<or> length energy_list = 0 then Inr None
      else
        (case py_min energy_list of
           Inl err \<Rightarrow> Inl err
         | Inr min_e \<Rightarrow>
            (case peak_loop xyzs_list energy_list [1..<length dists - 1] (min_e, None) of
               Inl err \<Rightarrow> Inl err
             | Inr st \<Rightarrow>
                (case rel_energies min_e energy_list of
                   Inl err \<Rightarrow> Inl err
                 | Inr curve \<Rightarrow> Inr (snd st)))))"

text \<open>
  An interior strict local maximum of an energy list: an index that is neither the first
  nor the last and whose energy is strictly above both neighbours.
\<close>

definition interior_max :: "energy list \<Rightarrow> nat \<Rightarrow> bool" where
  "interior_max es i \<longleftrightarrow>
     1 \<le> i \<and> i + 1 < length es \<and> es ! (i - 1) < es ! i \<and> es ! i > es ! (i + 1)"

section \<open>get_ts_guess_1dpes_scan\<close>

text \<open>
  Modelled from the spec: a molecule object (the class \<open>Molecule\<close> of autode/molecule.py,
  which is not among the sources). Only its coordinates are read and written by the scan;
  every other attribute (name, charge, graph, ...) travels in the extension part of the record.
  Objects live in a store, a list indexed by address, so that the caller's molecule and
  the copies the scan works on are different objects.
\<close>

record molecule =
  xyzs :: "xyzs option"

type_synonym 'm store = "'m molecule_scheme list"

text \<open>\<open>deepcopy(mol)\<close> allocates a new object with the same contents and returns its address.\<close>

definition deepcopy :: "'m store \<Rightarrow> nat \<Rightarrow> 'm store \<times> nat" where
  "deepcopy h a = (h @ [h ! a], length h)"

text \<open>
  Modelled from the spec: \<open>Molecule.set_xyzs\<close> (autode/molecule.py is not among the
  sources) replaces the coordinates of a structure; the tests check that
  \<open>set_xyzs(xyzs=None)\<close> leaves \<open>xyzs\<close> as \<open>None\<close>.
\<close>

definition set_xyzs :: "'m molecule_scheme \<Rightarrow> xyzs option \<Rightarrow> 'm molecule_scheme" where
  "set_xyzs m x = m\<lparr>xyzs := x\<rparr>"

text \<open>
  Modelled from the spec: the relaxation capability, the class \<open>Calculation\<close> of
  autode/calculation.py, which is not among the sources. A calculation is made from a
  name, the molecule object, the constrained atom pair and the target distance (the
  method, the keywords and \<open>Config.n_cores\<close> are the same at every step); after
  \<open>run()\<close> it gives the final geometry (a list, as \<open>get_final_xyzs\<close> builds it) and the
  energy (possibly \<open>None\<close>). It may change the object it was given, and no other.
\<close>

record 'm calc_result =
  final_xyzs :: xyzs
  final_energy :: "energy option"
  mol_after :: "'m molecule_scheme"

type_synonym 'm calculation =
  "string \<Rightarrow> 'm molecule_scheme \<Rightarrow> bond \<Rightarrow> real \<Rightarrow> 'm calc_result"

text \<open>One entry of the log of calculations: the arguments of the call and what it returned.\<close>

record 'm scan_call =
  call_name :: string
  call_mol :: "'m molecule_scheme"
  call_bond :: bond
  call_dist :: real
  call_xyzs :: xyzs
  call_energy :: "energy option"

text \<open>\<open>str(n)\<close> for the step number: its decimal digits.\<close>

fun str_nat :: "nat \<Rightarrow> string" where
  "str_nat n =
     (if n < 10 then [char_of (48 + n)]
      else str_nat (n div 10) @ [char_of (48 + n mod 10)])"

declare str_nat.simps [simp del]

text \<open>
  \<open>numpy.linspace(start, stop, num)\<close> with the default \<open>endpoint=True\<close>: \<open>num\<close> samples
  \<open>start + i * step\<close> with \<open>step = (stop - start) / (num - 1)\<close>; a negative \<open>num\<close>
  raises ValueError, \<open>num = 1\<close> gives \<open>[start]\<close>.
\<close>

definition linspace :: "real \<Rightarrow> real \<Rightarrow> int \<Rightarrow> py_error + real list" where
  "linspace start stop num =
     (if num < 0 then Inl ValueError
      else if num = 1 then Inr [start]
      else Inr (map (\<lambda>i. start + real i * ((stop - start) / real (nat num - 1)))
                  [0..<nat num]))"

text \<open>
  The local state of the scan: the store, the lists \<open>xyzs_list\<close> and \<open>energy_list\<close>, and
  the log of the calculations that were run.
\<close>

record 'm scan_state =
  store :: "'m store"
  xyzs_list :: "xyzs list"
  energy_list :: "energy option list"
  calls :: "'m scan_call list"

text \<open>
  The body of the loop \<open>for n, dist in enumerate(dists)\<close>; \<open>a\<close> is the address of
  \<open>mol_with_const\<close>. It builds and runs the calculation on that object, appends the
  geometry and the energy, and assigns \<open>mol_with_const.xyzs = xyzs\<close>.
\<close>

definition scan_step ::
  "'m calculation \<Rightarrow> string \<Rightarrow> bond \<Rightarrow> nat \<Rightarrow> nat \<Rightarrow> real
     \<Rightarrow> 'm scan_state \<Rightarrow> 'm scan_state" where
  "scan_step calc name active_bond a n dist' s =
     (let m = store s ! a;
          nm = name @ ''_scan'' @ str_nat n;
          r = calc nm m active_bond dist'
      in \<lparr>store = (store s)[a := (mol_after r)\<lparr>xyzs := Some (final_xyzs r)\<rparr>],
          xyzs_list = xyzs_list s @ [final_xyzs r],
          energy_list = energy_list s @ [final_energy r],
          calls = calls s @ [\<lparr>call_name = nm, call_mol = m, call_bond = active_bond,
                              call_dist = dist', call_xyzs = final_xyzs r,
                              call_energy = final_energy r\<rparr>]\<rparr>)"

fun scan_loop ::
  "'m calculation \<Rightarrow> string \<Rightarrow> bond \<Rightarrow> nat \<Rightarrow> nat \<Rightarrow> real list
     \<Rightarrow> 'm scan_state \<Rightarrow> 'm scan_state" where
  "scan_loop calc name active_bond a n [] s = s"
| "scan_loop calc name active_bond a n (dist' # ds) s =
     scan_loop calc name active_bond a (Suc n) ds (scan_step calc name active_bond a n dist' s)"

text \<open>
  What one step does, seen from outside the store: the log entry of a calculation run on
  the object \<open>m\<close> at step \<open>n\<close>, the object after the step, and the log of the whole loop
  started on \<open>m\<close>. The loop is described by them in the lemma \<open>scan_loop_trace\<close>.
\<close>

definition step_call ::
  "'m calculation \<Rightarrow> string \<Rightarrow> bond \<Rightarrow> 'm molecule_scheme \<Rightarrow> nat \<Rightarrow> real \<Rightarrow> 'm scan_call" where
  "step_call calc name active_bond m n dist' =
     (let nm = name @ ''_scan'' @ str_nat n;
          r = calc nm m active_bond dist'
      in \<lparr>call_name = nm, call_mol = m, call_bond = active_bond, call_dist = dist',
          call_xyzs = final_xyzs r, call_energy = final_energy r\<rparr>)"

definition step_mol ::
  "'m calculation \<Rightarrow> string \<Rightarrow> bond \<Rightarrow> 'm molecule_scheme \<Rightarrow> nat \<Rightarrow> real \<Rightarrow> 'm molecule_scheme" where
  "step_mol calc name active_bond m n dist' =
     (let r = calc (name @ ''_scan'' @ str_nat n) m active_bond dist'
      in (mol_after r)\<lparr>xyzs := Some (final_xyzs r)\<rparr>)"

fun scan_trace ::
  "'m calculation \<Rightarrow> string \<Rightarrow> bond \<Rightarrow> 'm molecule_scheme \<Rightarrow> nat \<Rightarrow> real list \<Rightarrow> 'm scan_call list" where
  "scan_trace calc name active_bond m n [] = []"
| "scan_trace calc name active_bond m n (dist' # ds) =
     step_call calc name active_bond m n dist' #
     scan_trace calc name active_bond (step_mol calc name active_bond m n dist') (Suc n) ds"

text \<open>
  Lines 29 to 47 of the function: the copy, the distances and the loop. The molecule's
  method \<open>calc_bond_distance\<close> is a parameter that reads the object. The result is the
  list of distances with the state after the loop, or the exception of \<open>linspace\<close>.
\<close>

definition relaxed_scan ::
  "'m calculation \<Rightarrow> ('m molecule_scheme \<Rightarrow> bond \<Rightarrow> real) \<Rightarrow> 'm store \<Rightarrow> nat \<Rightarrow> bond
     \<Rightarrow> int \<Rightarrow> string \<Rightarrow> real \<Rightarrow> py_error + (real list \<times> 'm scan_state)" where
  "relaxed_scan calc calc_bond_distance h mol active_bond n_steps name delta_dist =
     (let (h1, mol_with_const) = deepcopy h mol;
          curr_dist = calc_bond_distance (h1 ! mol) active_bond
      in case linspace curr_dist (curr_dist + delta_dist) n_steps of
           Inl err \<Rightarrow> Inl err
         | Inr dists \<Rightarrow>
             Inr (dists,
                  scan_loop calc name active_bond mol_with_const 0 dists
                    \<lparr>store = h1, xyzs_list = [], energy_list = [], calls = []\<rparr>))"

text \<open>
  Modelled from the spec: the TS guess record of section 3 (the class \<open>TSguess\<close> of
  autode/ts_guess.py, which is not among the sources), the arguments it is built from.
\<close>

record ('m, 'rc) tsguess =
  ts_name :: string
  reaction_class :: 'rc
  ts_molecule :: "'m molecule_scheme"
  active_bonds :: "bond list"

text \<open>
  The whole function. It returns the value or the exception raised, together with the
  store it leaves behind; \<open>Inr None\<close> is the return value \<open>None\<close>.
\<close>

definition get_ts_guess_1dpes_scan ::
  "'m calculation \<Rightarrow> ('m molecule_scheme \<Rightarrow> bond \<Rightarrow> real) \<Rightarrow> 'm store \<Rightarrow> nat \<Rightarrow> bond
     \<Rightarrow> int \<Rightarrow> string \<Rightarrow> 'rc \<Rightarrow> real \<Rightarrow> bond list option
     \<Rightarrow> (py_error + ('m, 'rc) tsguess option) \<times> 'm store" where
  "get_ts_guess_1dpes_scan calc calc_bond_distance h mol active_bond n_steps name rclass
       delta_dist active_bonds_not_scanned =
     (case relaxed_scan calc calc_bond_distance h mol active_bond n_steps name delta_dist of
        Inl err \<Rightarrow> (Inl err, fst (deepcopy h mol))
      | Inr (dists, s) \<Rightarrow>
         (let (h3, tsguess_mol) = deepcopy (store s) mol
          in case find_1dpes_maximum_energy_xyzs dists (xyzs_list s) (energy_list s) of
               Inl err \<Rightarrow> (Inl err, h3)
             | Inr peak \<Rightarrow>
                (let h4 = h3[tsguess_mol := set_xyzs (h3 ! tsguess_mol) peak]
                 in if xyzs (h4 ! tsguess_mol) = None then (Inr None, h4)
                    else
                      (let bonds = (case active_bonds_not_scanned of
                                      None \<Rightarrow> [active_bond]
                                    | Some more_bonds \<Rightarrow> [active_bond] @ more_bonds)
                       in (Inr (Some \<lparr>ts_name = name, reaction_class = rclass,
                                       ts_molecule = h4 ! tsguess_mol,
                                       active_bonds = bonds\<rparr>), h4)))))"

text \<open>
  The invariant of the peak loop after the indices below \<open>m\<close>, for a curve \<open>es\<close> whose
  energies are all present and bounded below by \<open>mn\<close>: either no interior maximum was
  met and the state is the initial one, or the state holds the first of the highest
  interior maxima met so far.
\<close>

definition peak_inv ::
  "xyzs list \<Rightarrow> energy list \<Rightarrow> energy \<Rightarrow> nat \<Rightarrow> energy option \<times> xyzs option \<Rightarrow> bool" where
  "peak_inv xl es mn m st \<longleftrightarrow>
     (st = (Some mn, None) \<and> (\<forall>i<m. \<not> interior_max es i)) \<or>
     (\<exists>k<m. interior_max es k \<and> st = (Some (es ! k), Some (xl ! k)) \<and>
        (\<forall>j<m. interior_max es j \<longrightarrow> es ! j \<le> es ! k) \<and>
        (\<forall>j<k. interior_max es j \<longrightarrow> es ! j < es ! k))"

section \<open>Core atoms and stripping (autode/molecule.py, not among the sources)\<close>

text \<open>
  Modelled from the spec: the molecular graph, an undirected graph over atom indices
  given by its bond edges, with its neighbour query.
\<close>

type_synonym graph = "bond list"

definition neighbours :: "graph \<Rightarrow> nat \<Rightarrow> nat set" where
  "neighbours g a =
     set (map snd (filter (\<lambda>e. fst e = a) g)) \<union> set (map fst (filter (\<lambda>e. snd e = a) g))"

text \<open>
  Modelled from the spec: the breadth-first traversal up to \<open>depth\<close> hops (section 4.1);
  \<open>bfs_visited g depth S\<close> is the set of atoms visited from the start set \<open>S\<close>, and
  depth 0 visits the start set only.
\<close>

fun bfs_visited :: "graph \<Rightarrow> nat \<Rightarrow> nat set \<Rightarrow> nat set" where
  "bfs_visited g 0 S = S"
| "bfs_visited g (Suc d) S = bfs_visited g d (S \<union> (\<Union>a\<in>S. neighbours g a))"

text \<open>
  Modelled from the spec: the union, over all active atoms, of the atoms visited from
  each of them (section 4.1).
\<close>

definition bfs_union :: "graph \<Rightarrow> nat list \<Rightarrow> nat \<Rightarrow> nat set" where
  "bfs_union g acts depth = (\<Union>a\<in>set acts. bfs_visited g depth {a})"

text \<open>
  Modelled from the spec: the post-pass of section 4.1, for every pair of \<open>pi_bonds\<close> in
  turn: if exactly one endpoint is in the set, the other endpoint is added.
\<close>

fun pi_closure :: "bond list \<Rightarrow> nat set \<Rightarrow> nat set" where
  "pi_closure [] S = S"
| "pi_closure (p # ps) S =
     pi_closure ps
       (if fst p \<in> S \<and> snd p \<notin> S then insert (snd p) S
        else if snd p \<in> S \<and> fst p \<notin> S then insert (fst p) S
        else S)"

text \<open>
  Modelled from the spec: \<open>Molecule.get_core_atoms\<close>, the \<open>select_core\<close> of section 4.1.
  It is absent when the active atoms are unset or empty; otherwise it is the traversal
  followed by the post-pass.
\<close>

definition get_core_atoms ::
  "graph \<Rightarrow> nat list option \<Rightarrow> bond list \<Rightarrow> nat \<Rightarrow> nat set option" where
  "get_core_atoms g active_atoms pi_bonds depth =
     (case active_atoms of
        None \<Rightarrow> None
      | Some acts \<Rightarrow>
          if acts = [] then None
          else Some (pi_closure pi_bonds (bfs_union g acts depth)))"

text \<open>
  Modelled from the spec: a structure (section 3), its ordered atoms and the fragment
  mark; the graph and the other attributes are in the extension part. A bond
  rearrangement holds the forming and the breaking pairs, as the tests read them
  (\<open>fbonds\<close>, \<open>bbonds\<close>).
\<close>

record "structure" =
  atoms :: xyzs
  is_fragment :: bool

record bond_rearrangement =
  fbonds :: "bond list"
  bbonds :: "bond list"

text \<open>
  Modelled from the spec: the core atoms of a structure of \<open>n\<close> atoms in ascending
  original index, and the mapping from old to new indices built from that order
  (section 4.2); it is defined on the retained atoms only.
\<close>

definition core_order :: "nat \<Rightarrow> nat set \<Rightarrow> nat list" where
  "core_order n core = filter (\<lambda>i. i \<in> core) [0..<n]"

definition new_index :: "nat list \<Rightarrow> nat \<Rightarrow> nat option" where
  "new_index kept = map_of (zip kept [0..<length kept])"

text \<open>
  Modelled from the spec: a pair is kept, remapped, when both endpoints have a new index,
  and dropped otherwise (section 4.2).
\<close>

definition remap_bonds :: "(nat \<Rightarrow> nat option) \<Rightarrow> bond list \<Rightarrow> bond list" where
  "remap_bonds f bs =
     List.map_filter
       (\<lambda>p. case f (fst p) of
               None \<Rightarrow> None
             | Some a \<Rightarrow> (case f (snd p) of None \<Rightarrow> None | Some b \<Rightarrow> Some (a, b)))
       bs"

text \<open>
  Modelled from the spec: the error of section 7 that the stripper can meet, a pair of
  the bond rearrangement that references an atom index outside the structure.
\<close>

datatype strip_error = InputError

definition in_structure :: "nat \<Rightarrow> bond list \<Rightarrow> bool" where
  "in_structure n bs = list_all (\<lambda>p. fst p < n \<and> snd p < n) bs"

text \<open>
  Modelled from the spec: \<open>Molecule.strip_core\<close>, the \<open>strip\<close> of section 4.2. Without
  core atoms, or with core atoms that cover every atom, it returns the structure marked
  as not a fragment and the bond rearrangement it was given. Otherwise a pair outside the
  structure is an InputError, and the result is the retained atoms in their order, marked
  as a fragment, with the remapped bond rearrangement.

  The tests strip the reactant of 32 atoms with its 15 core atoms of depth 2 and get a
  fragment of 17 atoms, in which the forming pair (1, 30) has become (1, 13): the
  repository's function puts further atoms after the retained ones. Neither the spec nor
  the sources say which atoms they are, so they are the parameter \<open>added_atoms\<close>.
\<close>

definition strip_core ::
  "('s structure_scheme \<Rightarrow> nat set \<Rightarrow> xyzs) \<Rightarrow> 's structure_scheme \<Rightarrow> nat set option
     \<Rightarrow> bond_rearrangement \<Rightarrow> strip_error + ('s structure_scheme \<times> bond_rearrangement)" where
  "strip_core added_atoms s core_atoms bond_rearrang =
     (case core_atoms of
        None \<Rightarrow> Inr (s\<lparr>is_fragment := False\<rparr>, bond_rearrang)
      | Some core \<Rightarrow>
          if set [0..<length (atoms s)] \<subseteq> core
          then Inr (s\<lparr>is_fragment := False\<rparr>, bond_rearrang)
          else if in_structure (length (atoms s)) (fbonds bond_rearrang) \<and>
                  in_structure (length (atoms s)) (bbonds bond_rearrang)
          then
            (let kept = core_order (length (atoms s)) core;
                 f = new_index kept
             in Inr (s\<lparr>atoms := map (\<lambda>i. atoms s ! i) kept @ added_atoms s core,
                        is_fragment := True\<rparr>,
                     \<lparr>fbonds = remap_bonds f (fbonds bond_rearrang),
                      bbonds = remap_bonds f (bbonds bond_rearrang)\<rparr>))
          else Inl InputError)"

section \<open>Example scans\<close>

text \<open>
  Five scan points between the distances 1.0 and 2.5, with one geometry per point, used
  to run the peak search on concrete curves.
\<close>

definition example_dists :: "real list" where
  "example_dists = [1, 1.375, 1.75, 2.125, 2.5]"

definition example_geoms :: "xyzs list" where
  "example_geoms =
     [[(''H'', 0, 0, 0)], [(''H'', 1, 0, 0)], [(''H'', 2, 0, 0)], [(''H'', 3, 0, 0)],
      [(''H'', 4, 0, 0)]]"

text \<open>
  A molecule of two atoms; a calculation that puts the second atom at the target
  distance, with an energy that peaks at the distance 1.75; and the same calculation
  failing (no geometry, no energy) at the distance 1.75.
\<close>

definition example_mol :: molecule where
  "example_mol = \<lparr>xyzs = Some [(''H'', 0, 0, 0), (''H'', 1, 0, 0)]\<rparr>"

definition example_calc :: "unit calculation" where
  "example_calc nm m b d =
     \<lparr>final_xyzs = [(''H'', 0, 0, 0), (''H'', d, 0, 0)],
      final_energy = Some (- ((d - 1.75) * (d - 1.75))),
      mol_after = m\<rparr>"

definition failing_calc :: "unit calculation" where
  "failing_calc nm m b d =
     (if d = 1.75 then \<lparr>final_xyzs = [], final_energy = None, mol_after = m\<rparr>
      else example_calc nm m b d)"

text \<open>A chain of five atoms, and a structure of three atoms with a bond rearrangement.\<close>

definition example_graph :: graph where
  "example_graph = [(0, 1), (1, 2), (2, 3), (3, 4)]"

definition example_structure :: "structure" where
  "example_structure =
     \<lparr>atoms = [(''C'', 0, 0, 0), (''C'', 1, 0, 0), (''H'', 2, 0, 0)], is_fragment = False\<rparr>"

definition example_rearrangement :: bond_rearrangement where
  "example_rearrangement = \<lparr>fbonds = [(1, 2)], bbonds = [(0, 1)]\<rparr>"






section \<open>The peak search on curves without absent energies\<close>

lemma min_from_present:
  "min_from (Some m) (map Some es) = Inr (Some (Min (insert m (set es))))"
proof (induction es arbitrary: m)
  case Nil
  then show ?case by simp
next
  case (Cons e es)
  have "Min (insert m (insert e (set es))) = Min (insert (min e m) (set es))"
    by (cases "set es = {}") (auto simp: min.commute min.left_commute min.assoc)
  with Cons show ?case
    by (auto simp: min_def not_less insert_commute)
qed

lemma py_min_present:
  "es \<noteq> [] \<Longrightarrow> py_min (map Some es) = Inr (Some (Min (set es)))"
  by (cases es) (simp_all add: py_min_def min_from_present)

lemma min_from_absent:
  "m = None \<or> None \<in> set (e # es) \<Longrightarrow> min_from m (e # es) = Inl TypeError"
proof (induction es arbitrary: m e)
  case Nil
  then show ?case by (cases e; cases m) auto
next
  case (Cons e' es)
  show ?case
  proof (cases "e = None \<or> m = None")
    case True
    then show ?thesis by (cases e; cases m) auto
  next
    case False
    then obtain a b where ab: "e = Some a" "m = Some b" by auto
    with Cons.prems have "None \<in> set (e' # es)" by auto
    then have "min_from (if a < b then e else m) (e' # es) = Inl TypeError"
      by (intro Cons.IH) simp
    with ab show ?thesis by (cases "a < b") auto
  qed
qed

lemma rel_energies_present:
  "\<exists>curve. rel_energies (Some m) (map Some es) = Inr curve"
  by (induction es) auto

lemma rel_energies_absent:
  "None \<in> set es \<Longrightarrow> rel_energies m es = Inl TypeError"
proof (induction es)
  case Nil
  then show ?case by simp
next
  case (Cons e es)
  then show ?case
    by (cases e; cases m) (auto split: sum.splits)
qed

lemma peak_loop_append:
  "peak_loop xl el (is @ js) st =
     (case peak_loop xl el is st of Inl err \<Rightarrow> Inl err | Inr st' \<Rightarrow> peak_loop xl el js st')"
  by (induction "is" arbitrary: st) (auto split: sum.splits)

lemma peak_step_present:
  assumes "1 \<le> i" "i + 1 < length es" "length xl = length es"
  shows "peak_step xl (map Some es) i (Some p, x) =
           Inr (if es ! i > p \<and> interior_max es i then (Some (es ! i), Some (xl ! i))
                else (Some p, x))"
  using assms by (auto simp: peak_step_def interior_max_def)

lemma interior_max_above:
  assumes "interior_max es i" "\<forall>e\<in>set es. mn \<le> e"
  shows "mn < es ! i"
proof -
  from assms(1) have "i - 1 < length es" "es ! (i - 1) < es ! i"
    by (auto simp: interior_max_def)
  with assms(2) show ?thesis
    by (meson nth_mem le_less_trans)
qed

lemma peak_invI_some:
  assumes "k < m" "interior_max es k"
    "\<forall>j<m. interior_max es j \<longrightarrow> es ! j \<le> es ! k"
    "\<forall>j<k. interior_max es j \<longrightarrow> es ! j < es ! k"
  shows "peak_inv xl es mn m (Some (es ! k), Some (xl ! k))"
  unfolding peak_inv_def using assms by blast

lemma peak_inv_step:
  assumes inv: "peak_inv xl es mn m st" and lb: "\<forall>e\<in>set es. mn \<le> e"
    and m: "1 \<le> m" "m + 1 < length es" and len: "length xl = length es"
  shows "\<exists>st'. peak_step xl (map Some es) m st = Inr st' \<and> peak_inv xl es mn (Suc m) st'"
proof -
  from inv consider
    (none) "st = (Some mn, None)" "\<forall>i<m. \<not> interior_max es i"
  | (some) k where "k < m" "interior_max es k" "st = (Some (es ! k), Some (xl ! k))"
      "\<forall>j<m. interior_max es j \<longrightarrow> es ! j \<le> es ! k"
      "\<forall>j<k. interior_max es j \<longrightarrow> es ! j < es ! k"
    unfolding peak_inv_def by blast
  then show ?thesis
  proof cases
    case none
    show ?thesis
    proof (cases "interior_max es m")
      case True
      then have "mn < es ! m" using lb by (rule interior_max_above)
      with True none(1) m len
      have "peak_step xl (map Some es) m st = Inr (Some (es ! m), Some (xl ! m))"
        by (simp add: peak_step_present)
      moreover have "\<forall>j<Suc m. interior_max es j \<longrightarrow> es ! j \<le> es ! m"
        using none(2) by (simp add: less_Suc_eq)
      moreover have "\<forall>j<m. interior_max es j \<longrightarrow> es ! j < es ! m"
        using none(2) by simp
      ultimately show ?thesis
        using True peak_invI_some [of m "Suc m" es xl mn] by simp
    next
      case False
      with none(1) m len have "peak_step xl (map Some es) m st = Inr st"
        by (simp add: peak_step_present)
      moreover have "\<forall>i<Suc m. \<not> interior_max es i"
        using False none(2) by (simp add: less_Suc_eq)
      ultimately show ?thesis
        unfolding peak_inv_def using none(1) by simp
    qed
  next
    case some
    show ?thesis
    proof (cases "es ! k < es ! m \<and> interior_max es m")
      case True
      with some(3) m len
      have "peak_step xl (map Some es) m st = Inr (Some (es ! m), Some (xl ! m))"
        by (simp add: peak_step_present)
      moreover have lt: "\<forall>j<m. interior_max es j \<longrightarrow> es ! j < es ! m"
      proof (intro allI impI)
        fix j assume "j < m" "interior_max es j"
        with some(4) have "es ! j \<le> es ! k" by simp
        with True show "es ! j < es ! m" by simp
      qed
      moreover from lt have "\<forall>j<Suc m. interior_max es j \<longrightarrow> es ! j \<le> es ! m"
        by (simp add: less_Suc_eq less_imp_le)
      ultimately show ?thesis
        using True peak_invI_some [of m "Suc m" es xl mn] by simp
    next
      case False
      with some(3) m len have "peak_step xl (map Some es) m st = Inr st"
        by (simp add: peak_step_present)
      moreover have "\<forall>j<Suc m. interior_max es j \<longrightarrow> es ! j \<le> es ! k"
        using False some(4) by (auto simp: less_Suc_eq not_less)
      ultimately show ?thesis
        using some(1,2,3,5) peak_invI_some [of k "Suc m" es xl mn] by simp
    qed
  qed
qed

lemma peak_loop_inv:
  assumes lb: "\<forall>e\<in>set es. mn \<le> e" and len: "length xl = length es"
  shows "m \<le> length es - 1 \<Longrightarrow>
     \<exists>st. peak_loop xl (map Some es) [1..<m] (Some mn, None) = Inr st \<and> peak_inv xl es mn m st"
proof (induction m)
  case 0
  then show ?case by (simp add: peak_inv_def)
next
  case (Suc m)
  show ?case
  proof (cases "m = 0")
    case True
    then show ?thesis by (simp add: peak_inv_def interior_max_def)
  next
    case False
    then have m: "1 \<le> m" "m + 1 < length es" using Suc.prems by auto
    from Suc obtain st where st: "peak_loop xl (map Some es) [1..<m] (Some mn, None) = Inr st"
      "peak_inv xl es mn m st" by auto
    from peak_inv_step [OF st(2) lb m len] obtain st' where
      st': "peak_step xl (map Some es) m st = Inr st'" "peak_inv xl es mn (Suc m) st'" by blast
    from m have "[1..<Suc m] = [1..<m] @ [m]" by simp
    with st st' show ?thesis by (simp add: peak_loop_append)
  qed
qed

lemma interior_max_bound: "interior_max es i \<Longrightarrow> i < length es - 1"
  by (auto simp: interior_max_def)

lemma find_present:
  assumes "length dists = length es" "length xl = length es"
  shows "\<exists>st :: energy option \<times> xyzs option.
           find_1dpes_maximum_energy_xyzs dists xl (map Some es) = Inr (snd st) \<and>
           (es \<noteq> [] \<longrightarrow> peak_inv xl es (Min (set es)) (length es - 1) st) \<and>
           (es = [] \<longrightarrow> snd st = None)"
proof (cases "es = []")
  case True
  then show ?thesis by (simp add: find_1dpes_maximum_energy_xyzs_def)
next
  case False
  let ?mn = "Min (set es)"
  have lb: "\<forall>e\<in>set es. ?mn \<le> e" by simp
  from peak_loop_inv [OF lb assms(2), of "length es - 1"] obtain st where
    st: "peak_loop xl (map Some es) [1..<length es - 1] (Some ?mn, None) = Inr st"
        "peak_inv xl es ?mn (length es - 1) st" by auto
  obtain curve where "rel_energies (Some ?mn) (map Some es) = Inr curve"
    using rel_energies_present by blast
  with st False assms have "find_1dpes_maximum_energy_xyzs dists xl (map Some es) = Inr (snd st)"
    by (simp add: find_1dpes_maximum_energy_xyzs_def py_min_present)
  with st(2) False show ?thesis by blast
qed

lemma find_1dpes_characterisation:
  assumes "length dists = length es" "length xl = length es"
  shows "(\<not> (\<exists>i. interior_max es i) \<longrightarrow> find_1dpes_maximum_energy_xyzs dists xl (map Some es) = Inr None) \<and>
         ((\<exists>i. interior_max es i) \<longrightarrow>
            (\<exists>k. interior_max es k \<and>
                 find_1dpes_maximum_energy_xyzs dists xl (map Some es) = Inr (Some (xl ! k)) \<and>
                 (\<forall>j. interior_max es j \<longrightarrow> es ! j \<le> es ! k) \<and>
                 (\<forall>j<k. interior_max es j \<longrightarrow> es ! j < es ! k)))"
proof -
  from find_present [OF assms] obtain st where
    r: "find_1dpes_maximum_energy_xyzs dists xl (map Some es) = Inr (snd st)"
    and inv: "es \<noteq> [] \<longrightarrow> peak_inv xl es (Min (set es)) (length es - 1) st"
    and emp: "es = [] \<longrightarrow> snd st = None" by blast
  show ?thesis
  proof (cases "es = []")
    case True
    with r emp show ?thesis by (simp add: interior_max_def)
  next
    case False
    with inv have "peak_inv xl es (Min (set es)) (length es - 1) st" by simp
    then consider
      (none) "st = (Some (Min (set es)), None)" "\<forall>i<length es - 1. \<not> interior_max es i"
    | (some) k where "interior_max es k" "st = (Some (es ! k), Some (xl ! k))"
        "\<forall>j<length es - 1. interior_max es j \<longrightarrow> es ! j \<le> es ! k"
        "\<forall>j<k. interior_max es j \<longrightarrow> es ! j < es ! k"
      unfolding peak_inv_def by blast
    then show ?thesis
    proof cases
      case none
      from none(2) have "\<not> (\<exists>i. interior_max es i)"
        using interior_max_bound by blast
      with r none(1) show ?thesis by simp
    next
      case some
      from some(3) have "\<forall>j. interior_max es j \<longrightarrow> es ! j \<le> es ! k"
        using interior_max_bound by blast
      with r some(1,2,4) show ?thesis by auto
    qed
  qed
qed

lemma increasing_no_interior_max:
  assumes "sorted_wrt (<) es"
  shows "\<not> interior_max es i"
proof
  assume "interior_max es i"
  then have "i + 1 < length es" "es ! (i + 1) < es ! i" by (auto simp: interior_max_def)
  moreover from this(1) have "es ! i < es ! (i + 1)"
    using sorted_wrt_nth_less [OF assms, of i "i + 1"] by simp
  ultimately show False by simp
qed

lemma decreasing_no_interior_max:
  assumes "sorted_wrt (>) es"
  shows "\<not> interior_max es i"
proof
  assume "interior_max es i"
  then have i: "1 \<le> i" "i < length es" "es ! (i - 1) < es ! i" by (auto simp: interior_max_def)
  from i(1,2) have "es ! (i - 1) > es ! i"
    using sorted_wrt_nth_less [OF assms, of "i - 1" i] by simp
  with i(3) show False by simp
qed

lemma upt_1_4: "[1..<4] = [1, 2, 3]"
  by (simp add: upt_rec)

lemma example_lengths:
  "length example_dists = 5" "length example_geoms = 5"
  by (simp_all add: example_dists_def example_geoms_def)

section \<open>Claims about find_1dpes_maximum_energy_xyzs\<close>

text \<open>
  C2. On a curve whose energies are all present and that has an interior strict local
  maximum, the search returns the geometry of an interior strict local maximum \<open>k\<close> of the
  highest energy among all of them, and every interior strict local maximum before \<open>k\<close>
  is strictly lower: on a tie the lowest index wins.
\<close>

theorem find_peak_highest_interior_max:
  assumes "length dists = length es" and "length geoms = length es"
    and "\<exists>i. interior_max es i"
  shows "\<exists>k. interior_max es k \<and>
           find_1dpes_maximum_energy_xyzs dists geoms (map Some es) = Inr (Some (geoms ! k)) \<and>
           (\<forall>j. interior_max es j \<longrightarrow> es ! j \<le> es ! k) \<and>
           (\<forall>j<k. interior_max es j \<longrightarrow> es ! j < es ! k)"
  using find_1dpes_characterisation [OF assms(1,2)] assms(3) by blast


theorem find_peak_highest_interior_max_witness:
  "length example_dists = length [0, 2, 1, 3, 0 :: real] \<and>
   length example_geoms = length [0, 2, 1, 3, 0 :: real] \<and>
   (\<exists>i. interior_max [0, 2, 1, 3, 0] i) \<and>
   (\<exists>k. interior_max [0, 2, 1, 3, 0] k \<and>
        find_1dpes_maximum_energy_xyzs example_dists example_geoms (map Some [0, 2, 1, 3, 0])
          = Inr (Some (example_geoms ! k)) \<and>
        (\<forall>j. interior_max [0, 2, 1, 3, 0] j \<longrightarrow> [0, 2, 1, 3, 0] ! j \<le> [0, 2, 1, 3, 0 :: real] ! k) \<and>
        (\<forall>j<k. interior_max [0, 2, 1, 3, 0] j \<longrightarrow> [0, 2, 1, 3, 0] ! j < [0, 2, 1, 3, 0 :: real] ! k))"
proof -
  have l1: "length example_dists = length [0, 2, 1, 3, 0 :: real]"
    by (simp add: example_lengths)
  have l2: "length example_geoms = length [0, 2, 1, 3, 0 :: real]"
    by (simp add: example_lengths)
  have h: "\<exists>i. interior_max [0, 2, 1, 3, 0] i"
    by (rule exI [of _ 1]) (simp add: interior_max_def)
  from find_peak_highest_interior_max [OF l1 l2 h] l1 l2 h show ?thesis by blast
qed

text \<open>
  The same on concrete curves: the higher of two maxima is returned whether it comes
  second or first, and of two maxima of equal height the first.
\<close>

lemma find_peak_higher_second:
  "find_1dpes_maximum_energy_xyzs example_dists example_geoms
     [Some 0, Some 2, Some 1, Some 3, Some 0] = Inr (Some [(''H'', 3, 0, 0)])"
  by (simp add: find_1dpes_maximum_energy_xyzs_def py_min_def peak_step_def upt_1_4
      example_dists_def example_geoms_def)

lemma find_peak_higher_first:
  "find_1dpes_maximum_energy_xyzs example_dists example_geoms
     [Some 0, Some 3, Some 1, Some 2, Some 0] = Inr (Some [(''H'', 1, 0, 0)])"
  by (simp add: find_1dpes_maximum_energy_xyzs_def py_min_def peak_step_def upt_1_4
      example_dists_def example_geoms_def)

lemma find_peak_tie_first:
  "find_1dpes_maximum_energy_xyzs example_dists example_geoms
     [Some 0, Some 2, Some 1, Some 2, Some 0] = Inr (Some [(''H'', 1, 0, 0)])"
  by (simp add: find_1dpes_maximum_energy_xyzs_def py_min_def peak_step_def upt_1_4
      example_dists_def example_geoms_def)

text \<open>
  C4. On a strictly increasing or strictly decreasing curve, and more generally on every
  curve (all energies present) without an interior strict local maximum, the search
  returns \<open>None\<close>: no endpoint and no plateau point is reported.
\<close>

theorem find_peak_absent_without_interior_max:
  assumes "length dists = length es" and "length geoms = length es"
    and "sorted_wrt (<) es \<or> sorted_wrt (>) es \<or> \<not> (\<exists>i. interior_max es i)"
  shows "find_1dpes_maximum_energy_xyzs dists geoms (map Some es) = Inr None"
proof -
  from assms(3) have "\<not> (\<exists>i. interior_max es i)"
    using increasing_no_interior_max decreasing_no_interior_max by blast
  with find_1dpes_characterisation [OF assms(1,2)] show ?thesis by blast
qed


theorem find_peak_absent_without_interior_max_witness:
  "length example_dists = length [1, 2, 3, 4, 5 :: real] \<and>
   length example_geoms = length [1, 2, 3, 4, 5 :: real] \<and>
   sorted_wrt (<) [1, 2, 3, 4, 5 :: real] \<and>
   find_1dpes_maximum_energy_xyzs example_dists example_geoms (map Some [1, 2, 3, 4, 5]) = Inr None"
proof -
  have l1: "length example_dists = length [1, 2, 3, 4, 5 :: real]"
    by (simp add: example_lengths)
  have l2: "length example_geoms = length [1, 2, 3, 4, 5 :: real]"
    by (simp add: example_lengths)
  have h: "sorted_wrt (<) [1, 2, 3, 4, 5 :: real]" by simp
  then have "sorted_wrt (<) [1, 2, 3, 4, 5 :: real] \<or> sorted_wrt (>) [1, 2, 3, 4, 5 :: real]
      \<or> \<not> (\<exists>i. interior_max [1, 2, 3, 4, 5] i)" by blast
  from find_peak_absent_without_interior_max [OF l1 l2 this] l1 l2 h show ?thesis by blast
qed

text \<open>A plateau in the middle of the curve is not reported either.\<close>

lemma find_peak_plateau:
  "find_1dpes_maximum_energy_xyzs example_dists example_geoms
     [Some 0, Some 1, Some 1, Some 1, Some 0] = Inr None"
  by (simp add: find_1dpes_maximum_energy_xyzs_def py_min_def peak_step_def upt_1_4
      example_dists_def example_geoms_def)

text \<open>
  C10. The test against the running peak, which starts at the minimum of the curve, adds
  nothing to the test for an interior strict local maximum: such a point is always
  strictly above the minimum, and the search returns a geometry exactly when the curve
  (all energies present) has an interior strict local maximum.
\<close>

theorem peak_guard_redundant:
  assumes "length dists = length es" and "length geoms = length es"
  shows "(\<forall>i. interior_max es i \<longrightarrow> Min (set es) < es ! i) \<and>
         ((\<exists>x. find_1dpes_maximum_energy_xyzs dists geoms (map Some es) = Inr (Some x))
            \<longleftrightarrow> (\<exists>i. interior_max es i))"
proof -
  have "\<forall>e\<in>set es. Min (set es) \<le> e" by simp
  then have "\<forall>i. interior_max es i \<longrightarrow> Min (set es) < es ! i"
    using interior_max_above by blast
  moreover have "(\<exists>x. find_1dpes_maximum_energy_xyzs dists geoms (map Some es) = Inr (Some x))
            \<longleftrightarrow> (\<exists>i. interior_max es i)"
    using find_1dpes_characterisation [OF assms] by (cases "\<exists>i. interior_max es i") auto
  ultimately show ?thesis by blast
qed


theorem peak_guard_redundant_witness:
  "length example_dists = length [0, 2, 1, 3, 0 :: real] \<and>
   length example_geoms = length [0, 2, 1, 3, 0 :: real] \<and>
   interior_max [0, 2, 1, 3, 0] 3 \<and>
   Min (set [0, 2, 1, 3, 0 :: real]) < [0, 2, 1, 3, 0 :: real] ! 3 \<and>
   (\<exists>x. find_1dpes_maximum_energy_xyzs example_dists example_geoms (map Some [0, 2, 1, 3, 0])
          = Inr (Some x))"
proof -
  have l1: "length example_dists = length [0, 2, 1, 3, 0 :: real]"
    by (simp add: example_lengths)
  have l2: "length example_geoms = length [0, 2, 1, 3, 0 :: real]"
    by (simp add: example_lengths)
  have im: "interior_max [0, 2, 1, 3, 0] 3"
    by (simp add: interior_max_def)
  note guard = peak_guard_redundant [OF l1 l2]
  have above: "Min (set [0, 2, 1, 3, 0 :: real]) < [0, 2, 1, 3, 0 :: real] ! 3"
    by (rule guard [THEN conjunct1, rule_format, OF im])
  have found: "\<exists>x. find_1dpes_maximum_energy_xyzs example_dists example_geoms
      (map Some [0, 2, 1, 3, 0]) = Inr (Some x)"
    by (rule iffD2 [OF guard [THEN conjunct2] exI [of "interior_max [0, 2, 1, 3, 0]", OF im]])
  show ?thesis
    by (rule conjI [OF l1 conjI [OF l2 conjI [OF im conjI [OF above found]]]])
qed

text \<open>
  C1, as the code has it. The search does not discard points with an absent energy: on
  lists of equal length, an absent energy anywhere makes the search raise TypeError
  (in \<open>min\<close>, or in the subtraction for the plot when the only energy is absent), and
  without absent energies the search returns normally.
\<close>

theorem find_peak_absent_energy_raises:
  assumes "length dists = length energies" and "length geoms = length energies"
  shows "(None \<in> set energies \<longrightarrow>
            find_1dpes_maximum_energy_xyzs dists geoms energies = Inl TypeError) \<and>
         (None \<notin> set energies \<longrightarrow>
            (\<exists>r. find_1dpes_maximum_energy_xyzs dists geoms energies = Inr r))"
proof (intro conjI impI)
  assume absent: "None \<in> set energies"
  then obtain e es where el: "energies = e # es" by (cases energies) auto
  show "find_1dpes_maximum_energy_xyzs dists geoms energies = Inl TypeError"
  proof (cases es)
    case Nil
    with el absent have "energies = [None]" by simp
    moreover from this assms have "length dists = 1" "length geoms = 1" by simp_all
    ultimately show ?thesis
      by (simp add: find_1dpes_maximum_energy_xyzs_def py_min_def)
  next
    case (Cons e' es')
    with el absent have "min_from e (e' # es') = Inl TypeError"
      by (intro min_from_absent) auto
    with el Cons assms show ?thesis
      by (simp add: find_1dpes_maximum_energy_xyzs_def py_min_def)
  qed
next
  assume "None \<notin> set energies"
  then have "map Some (map the energies) = energies"
    by (induction energies) auto
  moreover from find_present [of dists "map the energies" geoms] assms
  obtain st :: "energy option \<times> xyzs option" where
    "find_1dpes_maximum_energy_xyzs dists geoms (map Some (map the energies)) = Inr (snd st)"
    by auto
  ultimately show "\<exists>r. find_1dpes_maximum_energy_xyzs dists geoms energies = Inr r"
    by auto
qed

theorem find_peak_absent_energy_raises_witness:
  "length example_dists = length [Some (- 1), Some (- 0.9), None, Some (- 0.8), Some (- 1 :: real)] \<and>
   length example_geoms = length [Some (- 1), Some (- 0.9), None, Some (- 0.8), Some (- 1 :: real)] \<and>
   None \<in> set [Some (- 1), Some (- 0.9), None, Some (- 0.8), Some (- 1 :: real)] \<and>
   find_1dpes_maximum_energy_xyzs example_dists example_geoms
     [Some (- 1), Some (- 0.9), None, Some (- 0.8), Some (- 1)] = Inl TypeError \<and>
   length example_dists = length [Some (- 1), Some (- 0.9), Some (- 0.7), Some (- 0.8), Some (- 1 :: real)] \<and>
   length example_geoms = length [Some (- 1), Some (- 0.9), Some (- 0.7), Some (- 0.8), Some (- 1 :: real)] \<and>
   None \<notin> set [Some (- 1), Some (- 0.9), Some (- 0.7), Some (- 0.8), Some (- 1 :: real)] \<and>
   (\<exists>r. find_1dpes_maximum_energy_xyzs example_dists example_geoms
      [Some (- 1), Some (- 0.9), Some (- 0.7), Some (- 0.8), Some (- 1)] = Inr r)"
proof -
  have l1: "length example_dists = length [Some (- 1), Some (- 0.9), None, Some (- 0.8), Some (- 1 :: real)]"
    by (simp add: example_lengths)
  have l2: "length example_geoms = length [Some (- 1), Some (- 0.9), None, Some (- 0.8), Some (- 1 :: real)]"
    by (simp add: example_lengths)
  have l3: "length example_dists = length [Some (- 1), Some (- 0.9), Some (- 0.7), Some (- 0.8), Some (- 1 :: real)]"
    by (simp add: example_lengths)
  have l4: "length example_geoms = length [Some (- 1), Some (- 0.9), Some (- 0.7), Some (- 0.8), Some (- 1 :: real)]"
    by (simp add: example_lengths)
  have a: "None \<in> set [Some (- 1), Some (- 0.9), None, Some (- 0.8), Some (- 1 :: real)]" by simp
  have b: "None \<notin> set [Some (- 1), Some (- 0.9), Some (- 0.7), Some (- 0.8), Some (- 1 :: real)]" by simp
  from find_peak_absent_energy_raises [OF l1 l2] find_peak_absent_energy_raises [OF l3 l4]
    l1 l2 l3 l4 a b
  show ?thesis by blast
qed

text \<open>
  C1, as the spec has it, fails: five scan points of which the third has no energy and
  no geometry. The point is not left out of the search; the search raises TypeError.
\<close>

theorem find_peak_failed_step_counterexample:
  "find_1dpes_maximum_energy_xyzs [1, 1.375, 1.75, 2.125, 2.5]
     [[(''H'', 0, 0, 0)], [(''H'', 1, 0, 0)], [], [(''H'', 3, 0, 0)], [(''H'', 4, 0, 0)]]
     [Some (- 1), Some (- 0.9), None, Some (- 0.8), Some (- 1)] = Inl TypeError"
  by (simp add: find_1dpes_maximum_energy_xyzs_def py_min_def)

section \<open>The scan loop\<close>

lemma scan_step_fields:
  "store (scan_step calc name ab a n d s) = (store s)[a := step_mol calc name ab (store s ! a) n d]"
  "xyzs_list (scan_step calc name ab a n d s) =
     xyzs_list s @ [call_xyzs (step_call calc name ab (store s ! a) n d)]"
  "energy_list (scan_step calc name ab a n d s) =
     energy_list s @ [call_energy (step_call calc name ab (store s ! a) n d)]"
  "calls (scan_step calc name ab a n d s) = calls s @ [step_call calc name ab (store s ! a) n d]"
  by (simp_all add: scan_step_def step_mol_def step_call_def Let_def)

lemma scan_loop_store:
  "length (store (scan_loop calc name ab a n ds s)) = length (store s) \<and>
   (\<forall>b. b \<noteq> a \<longrightarrow> store (scan_loop calc name ab a n ds s) ! b = store s ! b)"
  by (induction ds arbitrary: s n) (simp_all add: scan_step_fields)

lemma scan_loop_trace:
  "a < length (store s) \<Longrightarrow>
   calls (scan_loop calc name ab a n ds s) = calls s @ scan_trace calc name ab (store s ! a) n ds \<and>
   xyzs_list (scan_loop calc name ab a n ds s) =
     xyzs_list s @ map call_xyzs (scan_trace calc name ab (store s ! a) n ds) \<and>
   energy_list (scan_loop calc name ab a n ds s) =
     energy_list s @ map call_energy (scan_trace calc name ab (store s ! a) n ds)"
  by (induction ds arbitrary: s n) (simp_all add: scan_step_fields)

lemma length_scan_trace: "length (scan_trace calc name ab m n ds) = length ds"
  by (induction ds arbitrary: m n) simp_all

lemma scan_trace_nth:
  "k < length ds \<Longrightarrow>
   call_bond (scan_trace calc name ab m n ds ! k) = ab \<and>
   call_dist (scan_trace calc name ab m n ds ! k) = ds ! k \<and>
   call_name (scan_trace calc name ab m n ds ! k) = name @ ''_scan'' @ str_nat (n + k)"
proof (induction ds arbitrary: m n k)
  case Nil
  then show ?case by simp
next
  case (Cons d ds)
  then show ?case by (cases k) (simp_all add: step_call_def Let_def)
qed

lemma scan_trace_first:
  "ds \<noteq> [] \<Longrightarrow> call_mol (scan_trace calc name ab m n ds ! 0) = m"
  by (cases ds) (simp_all add: step_call_def Let_def)

lemma scan_trace_warm_start:
  "Suc k < length ds \<Longrightarrow>
   xyzs (call_mol (scan_trace calc name ab m n ds ! Suc k)) =
     Some (call_xyzs (scan_trace calc name ab m n ds ! k))"
proof (induction ds arbitrary: m n k)
  case Nil
  then show ?case by simp
next
  case (Cons d ds)
  show ?case
  proof (cases k)
    case 0
    with Cons.prems obtain d' ds' where "ds = d' # ds'" by (cases ds) auto
    with 0 show ?thesis by (simp add: step_call_def step_mol_def Let_def)
  next
    case (Suc k')
    with Cons.prems have "Suc k' < length ds" by simp
    from Cons.IH [OF this] Suc show ?thesis by simp
  qed
qed

lemma linspace_steps:
  assumes "2 \<le> n"
  shows "linspace a b n = Inr (map (\<lambda>i. a + real i * ((b - a) / real (nat n - 1))) [0..<nat n])"
  using assms by (simp add: linspace_def)

lemma linspace_last:
  assumes "2 \<le> (n :: int)"
  shows "a + real (nat n - 1) * ((b - a) / real (nat n - 1)) = b"
proof -
  from assms have "real (nat n - 1) \<noteq> 0" by simp
  then show ?thesis by simp
qed

lemma linspace_increasing:
  assumes "0 < step"
  shows "sorted_wrt (<) (map (\<lambda>i. a + real i * step) [0..<m])"
  using assms by (simp add: sorted_wrt_iff_nth_less)

lemma relaxed_scan_unfold:
  assumes "2 \<le> n_steps" "mol < length h"
  shows "relaxed_scan calc cbd h mol ab n_steps name delta =
     Inr (map (\<lambda>i. cbd (h ! mol) ab + real i * (delta / real (nat n_steps - 1))) [0..<nat n_steps],
          scan_loop calc name ab (length h) 0
            (map (\<lambda>i. cbd (h ! mol) ab + real i * (delta / real (nat n_steps - 1))) [0..<nat n_steps])
            \<lparr>store = h @ [h ! mol], xyzs_list = [], energy_list = [], calls = []\<rparr>)"
  using assms by (simp add: relaxed_scan_def deepcopy_def linspace_steps nth_append Let_def)

lemma relaxed_scan_store:
  assumes "relaxed_scan calc cbd h mol ab n_steps name delta = Inr (dists, s)"
  shows "length (store s) = Suc (length h) \<and> (\<forall>b<length h. store s ! b = h ! b)"
proof -
  from assms obtain ds where
    s: "s = scan_loop calc name ab (length h) 0 ds
              \<lparr>store = h @ [h ! mol], xyzs_list = [], energy_list = [], calls = []\<rparr>"
    by (auto simp: relaxed_scan_def deepcopy_def Let_def split: sum.splits)
  show ?thesis
    using scan_loop_store [of calc name ab "length h" 0 ds
        "\<lparr>store = h @ [h ! mol], xyzs_list = [], energy_list = [], calls = []\<rparr>"]
    by (simp add: s nth_append)
qed

lemma upt_0_5: "[0..<5] = [0, 1, 2, 3, 4]"
  by (simp add: upt_rec)

lemma upt_0_3: "[0..<3] = [0, 1, 2]"
  by (simp add: upt_rec)

section \<open>Claims about get_ts_guess_1dpes_scan\<close>

text \<open>
  C3, as the code has it. For \<open>n_steps \<ge> 2\<close> the scan makes exactly \<open>n_steps\<close> target
  distances, evenly spaced from the current bond distance to the current distance plus
  \<open>delta_dist\<close>, both included; it runs one constrained calculation per distance, in the
  order of the list, which is increasing distance when \<open>delta_dist > 0\<close>; the first
  calculation is given the contents of the caller's molecule and every later one a
  molecule whose geometry is the one the step before returned; one geometry and one
  energy are collected per step.
\<close>

theorem relaxed_scan_steps:
  assumes "2 \<le> n_steps" and "mol < length h"
  shows "\<exists>dists s.
     relaxed_scan calc cbd h mol ab n_steps name delta = Inr (dists, s) \<and>
     length dists = nat n_steps \<and>
     (\<forall>k<nat n_steps.
        dists ! k = cbd (h ! mol) ab + real k * (delta / real (nat n_steps - 1))) \<and>
     dists ! 0 = cbd (h ! mol) ab \<and>
     dists ! (nat n_steps - 1) = cbd (h ! mol) ab + delta \<and>
     (0 < delta \<longrightarrow> sorted_wrt (<) dists) \<and>
     length (calls s) = nat n_steps \<and>
     length (xyzs_list s) = nat n_steps \<and>
     length (energy_list s) = nat n_steps \<and>
     (\<forall>k<nat n_steps.
        call_bond (calls s ! k) = ab \<and> call_dist (calls s ! k) = dists ! k \<and>
        call_xyzs (calls s ! k) = xyzs_list s ! k \<and>
        call_energy (calls s ! k) = energy_list s ! k) \<and>
     call_mol (calls s ! 0) = h ! mol \<and>
     (\<forall>k. Suc k < nat n_steps \<longrightarrow>
        xyzs (call_mol (calls s ! Suc k)) = Some (xyzs_list s ! k))"
proof -
  define step where "step = delta / real (nat n_steps - 1)"
  define d0 where "d0 = cbd (h ! mol) ab"
  define dists where "dists = map (\<lambda>i. d0 + real i * step) [0..<nat n_steps]"
  define s0 :: "'a scan_state" where
    "s0 = \<lparr>store = h @ [h ! mol], xyzs_list = [], energy_list = [], calls = []\<rparr>"
  define s where "s = scan_loop calc name ab (length h) 0 dists s0"
  define tr where "tr = scan_trace calc name ab (h ! mol) 0 dists"
  have res: "relaxed_scan calc cbd h mol ab n_steps name delta = Inr (dists, s)"
    using relaxed_scan_unfold [OF assms] by (simp add: s_def s0_def dists_def step_def d0_def)
  have len: "length dists = nat n_steps" by (simp add: dists_def)
  have pos: "0 < nat n_steps" "dists \<noteq> []" using assms(1) len by auto
  have nth: "\<forall>k<nat n_steps. dists ! k = d0 + real k * step" by (simp add: dists_def)
  from nth pos have first: "dists ! 0 = d0" by simp
  have last: "dists ! (nat n_steps - 1) = d0 + delta"
    using nth pos linspace_last [OF assms(1), of d0 "d0 + delta"] by (simp add: step_def)
  have incr: "0 < delta \<longrightarrow> sorted_wrt (<) dists"
  proof
    assume "0 < delta"
    moreover from assms(1) have "0 < real (nat n_steps - 1)" by simp
    ultimately have "0 < step" by (simp add: step_def)
    then show "sorted_wrt (<) dists" unfolding dists_def by (rule linspace_increasing)
  qed
  have a: "length h < length (store s0)" "store s0 ! length h = h ! mol"
    by (simp_all add: s0_def)
  from scan_loop_trace [OF a(1), of calc name ab 0 dists]
  have tr: "calls s = tr" "xyzs_list s = map call_xyzs tr" "energy_list s = map call_energy tr"
    by (simp_all add: s_def tr_def a(2) s0_def)
  have ltr: "length tr = nat n_steps" by (simp add: tr_def length_scan_trace len)
  have entries: "\<forall>k<nat n_steps.
        call_bond (calls s ! k) = ab \<and> call_dist (calls s ! k) = dists ! k \<and>
        call_xyzs (calls s ! k) = xyzs_list s ! k \<and>
        call_energy (calls s ! k) = energy_list s ! k"
    using scan_trace_nth [of _ dists calc name ab "h ! mol" 0] ltr len
    by (simp add: tr tr_def)
  have start: "call_mol (calls s ! 0) = h ! mol"
    using scan_trace_first [OF pos(2)] by (simp add: tr tr_def)
  have warm: "\<forall>k. Suc k < nat n_steps \<longrightarrow>
        xyzs (call_mol (calls s ! Suc k)) = Some (xyzs_list s ! k)"
  proof (intro allI impI)
    fix k assume k: "Suc k < nat n_steps"
    then have "Suc k < length dists" by (simp add: len)
    from scan_trace_warm_start [OF this, of calc name ab "h ! mol" 0] k ltr
    show "xyzs (call_mol (calls s ! Suc k)) = Some (xyzs_list s ! k)"
      by (simp add: tr tr_def)
  qed
  have lens: "length (calls s) = nat n_steps" "length (xyzs_list s) = nat n_steps"
    "length (energy_list s) = nat n_steps"
    by (simp_all add: tr ltr)
  note facts = res len nth first last incr lens entries start warm
  show ?thesis
    using facts [unfolded d0_def step_def]
    by (intro exI [of _ dists] exI [of _ s] conjI) assumption+
qed

theorem relaxed_scan_steps_witness:
  "(2 :: int) \<le> 5 \<and> (0 :: nat) < length [example_mol] \<and>
   (\<exists>dists s.
     relaxed_scan example_calc (\<lambda>m b. 1) [example_mol] 0 (0, 1) 5 ''ts'' 1.5 = Inr (dists, s) \<and>
     length dists = nat 5 \<and>
     (\<forall>k<nat 5. dists ! k = (\<lambda>m b. 1) ([example_mol] ! 0) (0, 1) + real k * (1.5 / real (nat 5 - 1))) \<and>
     dists ! 0 = (\<lambda>m b. 1) ([example_mol] ! 0) (0, 1) \<and>
     dists ! (nat 5 - 1) = (\<lambda>m b. 1) ([example_mol] ! 0) (0, 1) + 1.5 \<and>
     (0 < (1.5 :: real) \<longrightarrow> sorted_wrt (<) dists) \<and>
     length (calls s) = nat 5 \<and>
     length (xyzs_list s) = nat 5 \<and>
     length (energy_list s) = nat 5 \<and>
     (\<forall>k<nat 5.
        call_bond (calls s ! k) = (0, 1) \<and> call_dist (calls s ! k) = dists ! k \<and>
        call_xyzs (calls s ! k) = xyzs_list s ! k \<and>
        call_energy (calls s ! k) = energy_list s ! k) \<and>
     call_mol (calls s ! 0) = [example_mol] ! 0 \<and>
     (\<forall>k. Suc k < nat 5 \<longrightarrow>
        xyzs (call_mol (calls s ! Suc k)) = Some (xyzs_list s ! k)))"
proof -
  have h1: "(2 :: int) \<le> 5" by simp
  have h2: "(0 :: nat) < length [example_mol]" by simp
  show ?thesis
    by (rule conjI [OF h1 conjI [OF h2 relaxed_scan_steps [OF h1 h2]]])
qed

text \<open>The five-step scan from 1.0 to 2.5 of the example, evaluated.\<close>

lemma example_scan:
  "map_sum id (\<lambda>r. (fst r, xyzs_list (snd r), energy_list (snd r)))
     (relaxed_scan example_calc (\<lambda>m b. 1) [example_mol] 0 (0, 1) 5 ''ts'' 1.5)
   = Inr ([1, 1.375, 1.75, 2.125, 2.5],
          [[(''H'', 0, 0, 0), (''H'', 1, 0, 0)], [(''H'', 0, 0, 0), (''H'', 1.375, 0, 0)],
           [(''H'', 0, 0, 0), (''H'', 1.75, 0, 0)], [(''H'', 0, 0, 0), (''H'', 2.125, 0, 0)],
           [(''H'', 0, 0, 0), (''H'', 2.5, 0, 0)]],
          [Some (- 0.5625), Some (- 0.140625), Some 0, Some (- 0.140625), Some (- 0.5625)])"
  by (simp add: relaxed_scan_def deepcopy_def linspace_def upt_0_5 scan_step_def Let_def
      example_calc_def)

text \<open>
  C3, as the spec has it, fails for a negative \<open>delta_dist\<close>: the calculations are then
  run in decreasing distance.
\<close>

theorem relaxed_scan_negative_delta_counterexample:
  "map_sum id (\<lambda>r. map call_dist (calls (snd r)))
     (relaxed_scan example_calc (\<lambda>m b. 2) [example_mol] 0 (0, 1) 3 ''ts'' (- 1))
   = Inr [2, 1.5, 1]"
  by (simp add: relaxed_scan_def deepcopy_def linspace_def upt_0_3 scan_step_def Let_def
      example_calc_def)

text \<open>
  The example scan gives a TS guess at the distance 1.75; when the step at 1.75 fails,
  the whole function raises the TypeError of the peak search.
\<close>

lemma example_ts:
  "fst (get_ts_guess_1dpes_scan example_calc (\<lambda>m b. 1) [example_mol] 0 (0, 1) 5 ''ts'' () 1.5 None)
   = Inr (Some \<lparr>ts_name = ''ts'', reaction_class = (),
                 ts_molecule = \<lparr>xyzs = Some [(''H'', 0, 0, 0), (''H'', 1.75, 0, 0)]\<rparr>,
                 active_bonds = [(0, 1)]\<rparr>)"
  by (simp add: get_ts_guess_1dpes_scan_def relaxed_scan_def deepcopy_def linspace_def upt_0_5
      scan_step_def Let_def example_calc_def find_1dpes_maximum_energy_xyzs_def py_min_def
      peak_step_def upt_1_4 set_xyzs_def example_mol_def)

lemma example_failed:
  "fst (get_ts_guess_1dpes_scan failing_calc (\<lambda>m b. 1) [example_mol] 0 (0, 1) 5 ''ts'' () 1.5 None)
   = Inl TypeError"
  by (simp add: get_ts_guess_1dpes_scan_def relaxed_scan_def deepcopy_def linspace_def upt_0_5
      scan_step_def Let_def example_calc_def failing_calc_def find_1dpes_maximum_energy_xyzs_def py_min_def
      peak_step_def upt_1_4 set_xyzs_def example_mol_def)

text \<open>
  C9. The function never changes the caller's molecule: every object that was in the
  store before the call is the same after it, whatever the result; the calculations run
  on a copy, and a TS guess that is returned holds a further copy of the caller's
  molecule with the coordinates replaced by the peak geometry.
\<close>

theorem scan_leaves_caller_molecule:
  assumes "mol < length h"
  shows "take (length h)
           (snd (get_ts_guess_1dpes_scan calc cbd h mol ab n_steps name rclass delta more_bonds)) = h \<and>
         (\<forall>ts. fst (get_ts_guess_1dpes_scan calc cbd h mol ab n_steps name rclass delta more_bonds)
                 = Inr (Some ts) \<longrightarrow>
               (\<exists>x. ts_molecule ts = (h ! mol)\<lparr>xyzs := Some x\<rparr>))"
proof (cases "relaxed_scan calc cbd h mol ab n_steps name delta")
  case (Inl err)
  then show ?thesis
    by (simp add: get_ts_guess_1dpes_scan_def deepcopy_def)
next
  case (Inr r)
  obtain dists s where r: "r = (dists, s)" by (cases r)
  from relaxed_scan_store [OF Inr [unfolded r]]
  have len: "length (store s) = Suc (length h)" and same: "\<forall>b<length h. store s ! b = h ! b"
    by simp_all
  from same assms have molsame: "store s ! mol = h ! mol" by simp
  have tk: "take (length h) (store s) = h"
    using len same by (simp add: list_eq_iff_nth_eq)
  have tk2: "take (length h) ((store s @ [store s ! mol])[length (store s) := m']) = h" for m'
    using tk len by simp
  show ?thesis
  proof (cases "find_1dpes_maximum_energy_xyzs dists (xyzs_list s) (energy_list s)")
    case (Inl err)
    with Inr r tk len show ?thesis
      by (simp add: get_ts_guess_1dpes_scan_def deepcopy_def)
  next
    case peak: (Inr p)
    show ?thesis
    proof (cases p)
      case None
      with Inr r peak tk2 show ?thesis
        by (simp add: get_ts_guess_1dpes_scan_def deepcopy_def set_xyzs_def Let_def)
    next
      case (Some x)
      with Inr r peak tk2 molsame show ?thesis
        by (auto simp add: get_ts_guess_1dpes_scan_def deepcopy_def set_xyzs_def Let_def)
    qed
  qed
qed

theorem scan_leaves_caller_molecule_witness:
  "(0 :: nat) < length [example_mol] \<and>
   take (length [example_mol])
     (snd (get_ts_guess_1dpes_scan example_calc (\<lambda>m b. 1) [example_mol] 0 (0, 1) 5 ''ts'' () 1.5 None))
     = [example_mol] \<and>
   fst (get_ts_guess_1dpes_scan example_calc (\<lambda>m b. 1) [example_mol] 0 (0, 1) 5 ''ts'' () 1.5 None)
     = Inr (Some \<lparr>ts_name = ''ts'', reaction_class = (),
                   ts_molecule = \<lparr>xyzs = Some [(''H'', 0, 0, 0), (''H'', 1.75, 0, 0)]\<rparr>,
                   active_bonds = [(0, 1)]\<rparr>) \<and>
   (\<exists>x. ts_molecule \<lparr>ts_name = ''ts'', reaction_class = (),
                   ts_molecule = \<lparr>xyzs = Some [(''H'', 0, 0, 0), (''H'', 1.75, 0, 0)]\<rparr>,
                   active_bonds = [(0, 1)]\<rparr> = ([example_mol] ! 0)\<lparr>xyzs := Some x\<rparr>)"
proof -
  have h: "(0 :: nat) < length [example_mol]" by simp
  note frame = scan_leaves_caller_molecule [OF h, of example_calc "\<lambda>m b. 1" "(0, 1)" 5 "''ts''" "()" "1.5" None]
  note ts = example_ts
  show ?thesis
    by (rule conjI [OF h conjI [OF frame [THEN conjunct1]
          conjI [OF ts frame [THEN conjunct2, rule_format, OF ts]]]])
qed

section \<open>Core atoms\<close>

lemma bfs_visited_mono_set:
  "S \<subseteq> T \<Longrightarrow> bfs_visited g d S \<subseteq> bfs_visited g d T"
proof (induction d arbitrary: S T)
  case 0
  then show ?case by simp
next
  case (Suc d)
  from Suc.prems have "S \<union> (\<Union>a\<in>S. neighbours g a) \<subseteq> T \<union> (\<Union>a\<in>T. neighbours g a)"
    by blast
  from Suc.IH [OF this] show ?case by simp
qed

lemma bfs_visited_Suc: "bfs_visited g d S \<subseteq> bfs_visited g (Suc d) S"
proof -
  have "S \<subseteq> S \<union> (\<Union>a\<in>S. neighbours g a)" by blast
  from bfs_visited_mono_set [OF this] show ?thesis by simp
qed

lemma bfs_visited_mono_depth:
  "d1 \<le> d2 \<Longrightarrow> bfs_visited g d1 S \<subseteq> bfs_visited g d2 S"
proof (induction d2)
  case 0
  then show ?case by simp
next
  case (Suc d2)
  show ?case
  proof (cases "d1 = Suc d2")
    case True
    then show ?thesis by simp
  next
    case False
    with Suc.prems have "d1 \<le> d2" by simp
    from Suc.IH [OF this] bfs_visited_Suc [of g d2 S] show ?thesis by blast
  qed
qed

lemma bfs_visited_start: "S \<subseteq> bfs_visited g d S"
  using bfs_visited_mono_depth [of 0 d g S] by simp

lemma bfs_union_mono_depth:
  "d1 \<le> d2 \<Longrightarrow> bfs_union g acts d1 \<subseteq> bfs_union g acts d2"
  unfolding bfs_union_def using bfs_visited_mono_depth [of d1 d2 g] by blast

lemma bfs_union_0: "bfs_union g acts 0 = set acts"
  by (simp add: bfs_union_def)

lemma bfs_union_start: "set acts \<subseteq> bfs_union g acts d"
  using bfs_union_mono_depth [of 0 d g acts] by (simp add: bfs_union_0)

lemma pi_closure_mono:
  "S \<subseteq> T \<Longrightarrow> pi_closure ps S \<subseteq> pi_closure ps T"
proof (induction ps arbitrary: S T)
  case Nil
  then show ?case by simp
next
  case (Cons p ps)
  let ?S' = "if fst p \<in> S \<and> snd p \<notin> S then insert (snd p) S
        else if snd p \<in> S \<and> fst p \<notin> S then insert (fst p) S else S"
  let ?T' = "if fst p \<in> T \<and> snd p \<notin> T then insert (snd p) T
        else if snd p \<in> T \<and> fst p \<notin> T then insert (fst p) T else T"
  from Cons.prems have "?S' \<subseteq> ?T'" by auto
  from Cons.IH [OF this] show ?case by simp
qed

lemma pi_closure_start: "S \<subseteq> pi_closure ps S"
proof (induction ps arbitrary: S)
  case Nil
  then show ?case by simp
next
  case (Cons p ps)
  let ?S' = "if fst p \<in> S \<and> snd p \<notin> S then insert (snd p) S
        else if snd p \<in> S \<and> fst p \<notin> S then insert (fst p) S else S"
  have "S \<subseteq> ?S'" by auto
  with Cons.IH [of ?S'] show ?case by auto
qed

lemma example_core_atoms:
  "get_core_atoms example_graph (Some [0]) [(2, 3)] 1 = Some {0, 1}"
  "get_core_atoms example_graph (Some [0]) [(2, 3)] 2 = Some {0, 1, 2, 3}"
  "get_core_atoms example_graph (Some [0]) [] 2 = Some {0, 1, 2}"
  by (auto simp add: get_core_atoms_def bfs_union_def neighbours_def example_graph_def
      numeral_2_eq_2)

text \<open>
  C6. The selected core atoms grow with the depth: for a non-empty list of active atoms
  and depths \<open>d1 < d2\<close> the set at \<open>d2\<close> contains the set at \<open>d1\<close>; at depth 0 the
  traversal gives exactly the active atoms, before the pass over the pi bonds.
\<close>

theorem core_atoms_monotone_in_depth:
  assumes "acts \<noteq> []" and "d1 < d2"
  shows "(\<exists>S1 S2. get_core_atoms g (Some acts) pi_bonds d1 = Some S1 \<and>
                  get_core_atoms g (Some acts) pi_bonds d2 = Some S2 \<and> S1 \<subseteq> S2) \<and>
         bfs_union g acts 0 = set acts \<and>
         get_core_atoms g (Some acts) pi_bonds 0 = Some (pi_closure pi_bonds (set acts))"
proof -
  from assms(2) have "bfs_union g acts d1 \<subseteq> bfs_union g acts d2"
    by (intro bfs_union_mono_depth) simp
  then have "pi_closure pi_bonds (bfs_union g acts d1) \<subseteq> pi_closure pi_bonds (bfs_union g acts d2)"
    by (rule pi_closure_mono)
  with assms(1) show ?thesis
    by (simp add: get_core_atoms_def bfs_union_0)
qed

theorem core_atoms_monotone_in_depth_witness:
  "[0 :: nat] \<noteq> [] \<and> (1 :: nat) < 2 \<and>
   (\<exists>S1 S2. get_core_atoms example_graph (Some [0]) [(2, 3)] 1 = Some S1 \<and>
             get_core_atoms example_graph (Some [0]) [(2, 3)] 2 = Some S2 \<and> S1 \<subseteq> S2) \<and>
   bfs_union example_graph [0] 0 = set [0] \<and>
   get_core_atoms example_graph (Some [0]) [(2, 3)] 0 = Some (pi_closure [(2, 3)] (set [0]))"
proof -
  have h1: "[0 :: nat] \<noteq> []" by simp
  have h2: "(1 :: nat) < 2" by simp
  show ?thesis
    by (rule conjI [OF h1 conjI [OF h2 core_atoms_monotone_in_depth [OF h1 h2]]])
qed

text \<open>
  C8. Without active atoms (unset or empty) the selection returns \<open>None\<close>, whatever the
  graph, the pi bonds and the depth, and no call ever returns the empty set.
\<close>

theorem core_atoms_absent_without_active_atoms:
  "(active_atoms = None \<or> active_atoms = Some [] \<longrightarrow>
      get_core_atoms g active_atoms pi_bonds depth = None) \<and>
   get_core_atoms g active_atoms pi_bonds depth \<noteq> Some {}"
proof -
  have "pi_closure pi_bonds (bfs_union g acts depth) \<noteq> {}" if "acts \<noteq> []" for acts
  proof -
    from that obtain a where "a \<in> set acts" by (cases acts) auto
    with bfs_union_start [of acts g depth]
      pi_closure_start [of "bfs_union g acts depth" pi_bonds]
    show ?thesis by blast
  qed
  then show ?thesis
    by (auto simp: get_core_atoms_def split: option.splits)
qed

theorem core_atoms_absent_without_active_atoms_witness:
  "((None :: nat list option) = None \<or> (None :: nat list option) = Some []) \<and>
   get_core_atoms example_graph None [(2, 3)] 2 = None \<and>
   get_core_atoms example_graph (Some []) [(2, 3)] 2 = None"
proof -
  have h1: "(None :: nat list option) = None \<or> (None :: nat list option) = Some []" by simp
  have h2: "Some ([] :: nat list) = None \<or> Some ([] :: nat list) = Some []" by simp
  note a = core_atoms_absent_without_active_atoms [of None example_graph "[(2, 3)]" 2]
  note b = core_atoms_absent_without_active_atoms [of "Some []" example_graph "[(2, 3)]" 2]
  show ?thesis
    by (rule conjI [OF h1 conjI [OF a [THEN conjunct1, rule_format, OF h1]
          b [THEN conjunct1, rule_format, OF h2]]])
qed

section \<open>Stripping\<close>

text \<open>
  C7. Without core atoms, or with core atoms that cover every atom of the structure,
  stripping returns the structure marked as not a fragment and the bond rearrangement
  unchanged; a structure that was not a fragment is returned as it is.
\<close>

theorem strip_core_noop:
  assumes "core_atoms = None \<or>
           (\<exists>core. core_atoms = Some core \<and> (\<forall>i<length (atoms s). i \<in> core))"
  shows "strip_core added s core_atoms br = Inr (s\<lparr>is_fragment := False\<rparr>, br) \<and>
         (\<not> is_fragment s \<longrightarrow> strip_core added s core_atoms br = Inr (s, br))"
proof -
  from assms have "strip_core added s core_atoms br = Inr (s\<lparr>is_fragment := False\<rparr>, br)"
    by (auto simp: strip_core_def)
  moreover have "s\<lparr>is_fragment := False\<rparr> = s" if "\<not> is_fragment s"
    using that by simp
  ultimately show ?thesis by simp
qed

theorem strip_core_noop_witness:
  "(Some {0, 1, 2 :: nat} = None \<or>
      (\<exists>core. Some {0, 1, 2 :: nat} = Some core \<and> (\<forall>i<length (atoms example_structure). i \<in> core))) \<and>
   strip_core (\<lambda>s core. []) example_structure (Some {0, 1, 2}) example_rearrangement
     = Inr (example_structure, example_rearrangement) \<and>
   strip_core (\<lambda>s core. []) example_structure None example_rearrangement
     = Inr (example_structure, example_rearrangement)"
proof -
  have h1: "Some {0, 1, 2 :: nat} = None \<or>
      (\<exists>core. Some {0, 1, 2 :: nat} = Some core \<and> (\<forall>i<length (atoms example_structure). i \<in> core))"
    by (auto simp: example_structure_def)
  have h2: "(None :: nat set option) = None \<or>
      (\<exists>core. (None :: nat set option) = Some core \<and> (\<forall>i<length (atoms example_structure). i \<in> core))"
    by simp
  have nf: "\<not> is_fragment example_structure" by (simp add: example_structure_def)
  show ?thesis
    by (rule conjI [OF h1 conjI [OF
          strip_core_noop [OF h1, THEN conjunct2, rule_format, OF nf]
          strip_core_noop [OF h2, THEN conjunct2, rule_format, OF nf]]])
qed
























end
